theory Spec2Isabelle
  imports Main "HOL-Library.AList"
begin

section \<open>JavaScript values and objects\<close>

text \<open>
  Parameter values are strings, numbers (here: integers) and booleans; the query codec
  produces \<open>null\<close> and arrays, and a property read can produce \<open>undefined\<close> or a
  member of \<open>Object.prototype\<close>. An object is the list of its own enumerable
  string-keyed properties in insertion order, every key at most once; every object has
  \<open>Object.prototype\<close> as its prototype. (JavaScript lists integer-like keys first;
  the general results below read an object through \<open>map_of\<close> and do not depend on
  the order.)
\<close>

datatype jsval =
  Undefined | Null | Bool bool | Num int | Str string | Arr "jsval list" | Inherited string

type_synonym obj = "(string \<times> jsval) list"

text \<open>The names of the members of \<open>Object.prototype\<close>; \<open>Inherited k\<close> is the member
  named \<open>k\<close> (a function, and under \<open>__proto__\<close> the prototype itself).\<close>

definition Object_prototype :: "string list" where
  "Object_prototype =
     [''constructor'', ''__defineGetter__'', ''__defineSetter__'', ''hasOwnProperty'',
      ''__lookupGetter__'', ''__lookupSetter__'', ''isPrototypeOf'', ''propertyIsEnumerable'',
      ''toString'', ''valueOf'', ''__proto__'', ''toLocaleString'']"

text \<open>\<open>obj[k]\<close>: the value of an own property; without one, the member of the prototype
  under that name; \<open>undefined\<close> when there is neither.\<close>

definition js_get :: "obj \<Rightarrow> string \<Rightarrow> jsval" where
  "js_get obj k =
     (case map_of obj k of
        Some v \<Rightarrow> v
      | None \<Rightarrow> if k \<in> set Object_prototype then Inherited k else Undefined)"

text \<open>\<open>Object.fromEntries\<close>: the entries are set one after the other; setting a key
  that exists replaces its value in place.\<close>

definition fromEntries :: "(string \<times> jsval) list \<Rightarrow> obj" where
  "fromEntries es = fold (\<lambda>(k, v). AList.update k v) es []"

text \<open>\<open>Object.entries(obj)\<close>: the own properties in order, each key once (a list
  that repeats a key is read as \<open>map_of\<close> reads it: the first entry stands).\<close>

definition entries :: "obj \<Rightarrow> (string \<times> jsval) list" where
  "entries obj = AList.clearjunk obj"

text \<open>Object spread \<open>{...a, ...b}\<close>: the properties of \<open>b\<close> are set on a copy of
  \<open>a\<close>, in order.\<close>

definition spread :: "obj \<Rightarrow> obj \<Rightarrow> obj" where
  "spread a b = fold (\<lambda>(k, v). AList.update k v) (entries b) a"

section \<open>util\<close>

text \<open>\<open>omit(keys, obj)\<close> and \<open>pick(keys, obj)\<close>.\<close>

definition omit :: "string list \<Rightarrow> obj \<Rightarrow> obj" where
  "omit keys obj = fromEntries (filter (\<lambda>(k, v). k \<notin> set keys) (entries obj))"

definition pick :: "string list \<Rightarrow> obj \<Rightarrow> obj" where
  "pick keys obj = fromEntries (map (\<lambda>k. (k, js_get obj k)) keys)"

section \<open>External collaborators\<close>

text \<open>
  The pattern library (\<open>url-pattern\<close>), the query codec (\<open>query-string\<close>), the
  platform's \<open>URL\<close> constructor and the navigation subsystem's current location are not
  code of this repository: every operation takes them as the parameter \<open>env\<close>.
  A compiled pattern offers \<open>names\<close>, \<open>match\<close> (null when the path does not fit)
  and \<open>stringify\<close> (which may throw).
\<close>

datatype error = TypeError | PatternCompileError | PatternMismatchError

record location =
  pathname :: string
  search :: string
  hash :: string
  state :: "obj option"

record parser =
  up_names :: "string list"
  up_match :: "string \<Rightarrow> obj option"
  up_stringify :: "obj \<Rightarrow> error + string"

record env =
  UrlPattern :: "string \<Rightarrow> error + parser"
  qs_parse :: "string \<Rightarrow> obj"
  qs_stringifyUrl :: "string \<Rightarrow> obj \<Rightarrow> string"
  URL :: "string \<Rightarrow> error + location"
  history_location :: location

section \<open>router: the default pattern and the cache of compiled patterns\<close>

definition DEFAULT_PATTERN :: string where
  "DEFAULT_PATTERN = ''(*)''"

record router_state =
  defaultPattern :: string
  parsers :: "string \<rightharpoonup> parser"

text \<open>The module's top level: the default pattern is compiled into the cache.\<close>

definition initial_state :: "env \<Rightarrow> error + router_state" where
  "initial_state env =
     (case UrlPattern env DEFAULT_PATTERN of
        Inl e \<Rightarrow> Inl e
      | Inr p \<Rightarrow> Inr \<lparr>defaultPattern = DEFAULT_PATTERN, parsers = [DEFAULT_PATTERN \<mapsto> p]\<rparr>)"

text \<open>\<open>setPattern(pattern = DEFAULT_PATTERN)\<close>; \<open>None\<close> is the omitted argument.\<close>

definition setPattern :: "string option \<Rightarrow> router_state \<Rightarrow> router_state" where
  "setPattern pattern st =
     st\<lparr>defaultPattern := (case pattern of None \<Rightarrow> DEFAULT_PATTERN | Some p \<Rightarrow> p)\<rparr>"

text \<open>
  \<open>parsers[pattern]\<close> is a property read on a plain object: it finds the parser stored
  under the pattern, or else the member of \<open>Object.prototype\<close> of that name, which is
  no parser.
\<close>

datatype found = Compiled parser | NotAParser string

definition lookup :: "router_state \<Rightarrow> string \<Rightarrow> found option" where
  "lookup st p =
     (case parsers st p of
        Some parser \<Rightarrow> Some (Compiled parser)
      | None \<Rightarrow> if p \<in> set Object_prototype then Some (NotAParser p) else None)"

text \<open>\<open>getParser(pattern = defaultPattern)\<close>: what the read finds (every such value
  is truthy), or a new parser that is stored before it is returned. A constructor that
  throws stores nothing.\<close>

definition getParser ::
  "env \<Rightarrow> string option \<Rightarrow> router_state \<Rightarrow> (error + found) \<times> router_state" where
  "getParser env pattern st =
     (let p = (case pattern of None \<Rightarrow> defaultPattern st | Some p \<Rightarrow> p) in
      case lookup st p of
        Some parser \<Rightarrow> (Inr parser, st)
      | None \<Rightarrow>
          (case UrlPattern env p of
             Inl e \<Rightarrow> (Inl e, st)
           | Inr newParser \<Rightarrow>
               (Inr (Compiled newParser), st\<lparr>parsers := (parsers st)(p \<mapsto> newParser)\<rparr>)))"



text \<open>The states the module can be in: its initial state, changed by any sequence of
  \<open>setPattern\<close> and \<open>getParser\<close> calls (no other code writes the two variables).\<close>

inductive reachable :: "env \<Rightarrow> router_state \<Rightarrow> bool" for env where
  init: "initial_state env = Inr st \<Longrightarrow> reachable env st"
| set: "reachable env st \<Longrightarrow> reachable env (setPattern pattern st)"
| get: "reachable env st \<Longrightarrow> reachable env (snd (getParser env pattern st))"

section \<open>parsing: slash trimming\<close>

text \<open>
  \<open>trimSlashes(str) = str.replace(/^(\/+)\/|\/+$/, "")\<close>. The expression has no
  \<open>g\<close> flag, so only the first match, scanning from index 0, is replaced by the empty
  string. The first alternative can match at index 0 only: one or more slashes and one
  more slash, that is the whole run of leading slashes when it has two or more. The
  second alternative matches at an index where the rest of the string is a non-empty
  run of slashes.
\<close>

definition leadSlashes :: "string \<Rightarrow> nat option" where
  "leadSlashes s =
     (let n = length (takeWhile (\<lambda>c. c = CHR ''/'') s) in if 2 \<le> n then Some n else None)"

definition trailSlashes :: "string \<Rightarrow> bool" where
  "trailSlashes s = (s \<noteq> [] \<and> list_all (\<lambda>c. c = CHR ''/'') s)"

fun dropTrail :: "string \<Rightarrow> string" where
  "dropTrail [] = []"
| "dropTrail (c # cs) = (if trailSlashes (c # cs) then [] else c # dropTrail cs)"

definition trimSlashes :: "string \<Rightarrow> string" where
  "trimSlashes str = (case leadSlashes str of Some n \<Rightarrow> drop n str | None \<Rightarrow> dropTrail str)"

section \<open>parsing: locations to parameters, parameters to URLs\<close>

text \<open>The first argument of \<open>toParams\<close> and \<open>toOwnParams\<close>: null or undefined, a
  Location object, or a URL string.\<close>

datatype arg = Nil | Loc location | Url string

definition isNil :: "arg \<Rightarrow> bool" where
  "isNil x = (case x of Nil \<Rightarrow> True | _ \<Rightarrow> False)"

text \<open>\<open>toLocation\<close> returns an object as it is and hands a string to \<open>new URL\<close>.
  It is called on a non-nil argument only; null would come back as it is and fail at
  the destructuring that follows.\<close>

definition toLocation :: "env \<Rightarrow> arg \<Rightarrow> error + location" where
  "toLocation env a = (case a of Loc l \<Rightarrow> Inr l | Url s \<Rightarrow> URL env s | Nil \<Rightarrow> Inl TypeError)"

definition location_of :: "env \<Rightarrow> arg \<Rightarrow> error + location" where
  "location_of env a = (if isNil a then Inr (history_location env) else toLocation env a)"

text \<open>\<open>{...a, ...b, ...}\<close>\<close>

definition spreads :: "obj list \<Rightarrow> obj" where
  "spreads os = foldl spread [] os"

text \<open>What \<open>getParser\<close> returns is used as a parser: on a member of
  \<open>Object.prototype\<close> the call \<open>parser.match(...)\<close> is a TypeError, and so is
  \<open>pick(parser.names, ...)\<close>, which maps over \<open>undefined\<close>.\<close>

definition toOwnParams ::
  "env \<Rightarrow> arg \<Rightarrow> string option \<Rightarrow> router_state \<Rightarrow> (error + obj) \<times> router_state" where
  "toOwnParams env a pattern st =
     (case location_of env a of
        Inl e \<Rightarrow> (Inl e, st)
      | Inr l \<Rightarrow>
          if pattern = None \<or> pattern = Some [] then (Inr [], st)
          else
            (case getParser env pattern st of
               (Inl e, st') \<Rightarrow> (Inl e, st')
             | (Inr (NotAParser k), st') \<Rightarrow> (Inl TypeError, st')
             | (Inr (Compiled parser), st') \<Rightarrow>
                 (Inr (case up_match parser (trimSlashes (pathname l)) of
                         None \<Rightarrow> [] | Some m \<Rightarrow> m), st')))"

definition state_or_empty :: "location \<Rightarrow> obj" where
  "state_or_empty l = (case state l of None \<Rightarrow> [] | Some s \<Rightarrow> s)"

definition toParams ::
  "env \<Rightarrow> arg \<Rightarrow> string option \<Rightarrow> router_state \<Rightarrow> (error + obj) \<times> router_state" where
  "toParams env a pattern st =
     (case location_of env a of
        Inl e \<Rightarrow> (Inl e, st)
      | Inr l \<Rightarrow>
          (case toOwnParams env a pattern st of
             (Inl e, st') \<Rightarrow> (Inl e, st')
           | (Inr pathParams, st') \<Rightarrow>
               (let searchParams = qs_parse env (search l);
                    hashParams = qs_parse env (hash l)
                in (Inr (spreads [state_or_empty l, hashParams, searchParams, pathParams]), st'))))"

text \<open>The earlier \<open>toParams\<close> of \<open>src/parsing.js\<close>: no \<open>toOwnParams\<close>, the parser
  is looked up whatever the pattern is.\<close>

definition toParams_v0 ::
  "env \<Rightarrow> arg \<Rightarrow> string option \<Rightarrow> router_state \<Rightarrow> (error + obj) \<times> router_state" where
  "toParams_v0 env a pattern st =
     (case location_of env a of
        Inl e \<Rightarrow> (Inl e, st)
      | Inr l \<Rightarrow>
          (case getParser env pattern st of
             (Inl e, st') \<Rightarrow> (Inl e, st')
           | (Inr (NotAParser k), st') \<Rightarrow> (Inl TypeError, st')
           | (Inr (Compiled parser), st') \<Rightarrow>
               (let pathParams = (case up_match parser (trimSlashes (pathname l)) of
                                    None \<Rightarrow> [] | Some m \<Rightarrow> m);
                    searchParams = qs_parse env (search l);
                    hashParams = qs_parse env (hash l)
                in (Inr (spreads [state_or_empty l, hashParams, searchParams, pathParams]), st'))))"

text \<open>A destination: a literal URL, a parameter object or an update function.\<close>

datatype dest = DStr string | DObj obj | DFun "obj \<Rightarrow> obj"

definition getCurrParams ::
  "env \<Rightarrow> string option \<Rightarrow> router_state \<Rightarrow> (error + obj) \<times> router_state" where
  "getCurrParams env pattern st = toParams env (Loc (history_location env)) pattern st"

definition parameterize ::
  "env \<Rightarrow> dest \<Rightarrow> string option \<Rightarrow> router_state \<Rightarrow> (error + obj) \<times> router_state" where
  "parameterize env to pattern st =
     (case to of
        DObj ob \<Rightarrow> (Inr ob, st)
      | _ \<Rightarrow>
         (case getCurrParams env pattern st of
            (Inl e, st') \<Rightarrow> (Inl e, st')
          | (Inr currParams, st') \<Rightarrow>
              (case to of DFun f \<Rightarrow> (Inr (f currParams), st') | _ \<Rightarrow> (Inr currParams, st'))))"

definition stringify ::
  "env \<Rightarrow> obj \<Rightarrow> string option \<Rightarrow> router_state \<Rightarrow> (error + string) \<times> router_state" where
  "stringify env ps pattern st =
     (case getParser env pattern st of
        (Inl e, st') \<Rightarrow> (Inl e, st')
      | (Inr (NotAParser k), st') \<Rightarrow> (Inl TypeError, st')
      | (Inr (Compiled parser), st') \<Rightarrow>
          (let pathnameKeys = up_names parser;
               pathnameParams = spreads [[(''_'', Str [])], pick pathnameKeys ps]
           in case up_stringify parser pathnameParams of
                Inl e \<Rightarrow> (Inl e, st')
              | Inr s \<Rightarrow>
                  (Inr (qs_stringifyUrl env (if s = [] then ''/'' else s) (omit pathnameKeys ps)),
                   st')))"

definition toUrl ::
  "env \<Rightarrow> dest \<Rightarrow> string option \<Rightarrow> router_state \<Rightarrow> (error + string) \<times> router_state" where
  "toUrl env to pattern st =
     (case to of
        DStr s \<Rightarrow> (Inr s, st)
      | _ \<Rightarrow>
         (case parameterize env to pattern st of
            (Inl e, st') \<Rightarrow> (Inl e, st')
          | (Inr ps, st') \<Rightarrow> stringify env ps pattern st'))"

section \<open>navigation\<close>

text \<open>A navigation is the call it makes on the history: \<open>history.push(url)\<close> or
  \<open>history.replace(url)\<close>.\<close>

datatype nav = Push string | Replace string

text \<open>The second argument of \<open>navigate\<close>: omitted, a pattern, or an options object
  \<open>{ pattern, replace }\<close> (a property that is absent is \<open>None\<close>).\<close>

record options =
  opt_pattern :: "string option"
  opt_replace :: "bool option"

datatype patternOrOptions = Omitted | Pattern string | Options options

definition truthy :: "bool option \<Rightarrow> bool" where
  "truthy b = (case b of None \<Rightarrow> False | Some x \<Rightarrow> x)"

definition navigate ::
  "env \<Rightarrow> dest \<Rightarrow> patternOrOptions \<Rightarrow> bool \<Rightarrow> router_state \<Rightarrow> (error + nav) \<times> router_state" where
  "navigate env to po replace st =
     (let pattern = (case po of Omitted \<Rightarrow> None | Pattern p \<Rightarrow> Some p
                     | Options opts \<Rightarrow> opt_pattern opts);
          replace' = (case po of Options opts \<Rightarrow> truthy (opt_replace opts) | _ \<Rightarrow> replace)
      in case toUrl env to pattern st of
           (Inl e, st') \<Rightarrow> (Inl e, st')
         | (Inr url, st') \<Rightarrow> (Inr (if replace' then Replace url else Push url), st'))"

text \<open>
  The click event and its element, as far as \<open>goTo(e)\<close> reads them:
  \<open>getAttribute\<close> gives a string or null (\<open>None\<close>), the \<open>target\<close> property a string
  or nothing.
\<close>

record element =
  href_attribute :: "string option"
  target :: "string option"
  replace_attribute :: "string option"

record event =
  button :: int
  defaultPrevented :: bool
  currentTarget :: "element option"
  metaKey :: bool
  altKey :: bool
  ctrlKey :: bool
  shiftKey :: bool

text \<open>What the handler did: whether it called \<open>e.preventDefault()\<close>, and the result of
  the \<open>navigate\<close> call if it made one.\<close>

record handled =
  prevented :: bool
  navigated :: "(error + nav) option"

definition goTo :: "env \<Rightarrow> event option \<Rightarrow> router_state \<Rightarrow> handled \<times> router_state" where
  "goTo env e st =
     (case e of
        None \<Rightarrow> (\<lparr>prevented = False, navigated = None\<rparr>, st)
      | Some ev \<Rightarrow>
         (case currentTarget ev of
            None \<Rightarrow> (\<lparr>prevented = False, navigated = None\<rparr>, st)
          | Some el \<Rightarrow>
             (let href = href_attribute el;
                  replace = (replace_attribute el \<noteq> None \<and> replace_attribute el \<noteq> Some ''false'');
                  isModified = (metaKey ev \<or> altKey ev \<or> ctrlKey ev \<or> shiftKey ev)
              in if \<not> defaultPrevented ev \<and> button ev = 0
                    \<and> (target el = None \<or> target el = Some [] \<or> target el = Some ''_self'')
                    \<and> \<not> isModified
                 then (case href of
                         None \<Rightarrow> (\<lparr>prevented = True, navigated = None\<rparr>, st)
                       | Some h \<Rightarrow>
                           (case navigate env (DStr h)
                                   (Options \<lparr>opt_pattern = None, opt_replace = Some replace\<rparr>)
                                   False st of
                              (r, st') \<Rightarrow> (\<lparr>prevented = True, navigated = Some r\<rparr>, st')))
                 else (\<lparr>prevented = False, navigated = None\<rparr>, st))))"

section \<open>routable: hierarchical scopes\<close>

datatype patternSpec = PatternString string | ParamNames "string list"

definition toPattern :: "patternSpec \<Rightarrow> string" where
  "toPattern stringOrOptions =
     (case stringOrOptions of
        PatternString s \<Rightarrow> s
      | ParamNames ps \<Rightarrow>
          if length ps < 1 then [] else concat (map (\<lambda>param. ''(/:'' @ param @ '')'') ps))"

text \<open>What a scope reads of its parent: the root context has no \<open>rootParams\<close>.\<close>

record parent =
  parent_rootPattern :: string
  parent_rootParams :: "obj option"

definition root_parent :: parent where
  "root_parent = \<lparr>parent_rootPattern = [], parent_rootParams = None\<rparr>"

record scope =
  ownPattern :: string
  params :: obj
  pattern :: string
  rootParams :: obj
  rootPattern :: string
  rest :: jsval

definition as_parent :: "scope \<Rightarrow> parent" where
  "as_parent s = \<lparr>parent_rootPattern = rootPattern s, parent_rootParams = Some (rootParams s)\<rparr>"

text \<open>The derived store's callback: the scope for a location and a parent.\<close>

definition router ::
  "env \<Rightarrow> string \<Rightarrow> location \<Rightarrow> parent \<Rightarrow> router_state \<Rightarrow> (error + scope) \<times> router_state" where
  "router env own loc par st =
     (let rootPat = parent_rootPattern par @ own;
          pat = rootPat @ ''(*)''
      in case toParams env (Loc loc) (Some pat) st of
           (Inl e, st') \<Rightarrow> (Inl e, st')
         | (Inr all, st') \<Rightarrow>
             (case toOwnParams env (Loc loc) (Some (rootPat @ ''(*)'')) st' of
                (Inl e, st'') \<Rightarrow> (Inl e, st'')
              | (Inr own_all, st'') \<Rightarrow>
                  (Inr \<lparr>ownPattern = own,
                        params = AList.delete ''_'' all,
                        pattern = pat,
                        rootParams = AList.delete ''_'' own_all,
                        rootPattern = rootPat,
                        rest = (if js_get all ''_'' = Undefined then Str [] else js_get all ''_'')\<rparr>,
                   st'')))"

definition routable ::
  "env \<Rightarrow> patternSpec \<Rightarrow> location \<Rightarrow> parent \<Rightarrow> router_state \<Rightarrow> (error + scope) \<times> router_state" where
  "routable env stringOrOptions loc par st = router env (toPattern stringOrOptions) loc par st"

text \<open>The scope's \<open>goTo(to, options)\<close>: \<open>{ pattern, ...options }\<close> lets a
  \<open>pattern\<close> of the options stand in for the scope's.\<close>

definition parent_params :: "parent \<Rightarrow> obj" where
  "parent_params par = (case parent_rootParams par of None \<Rightarrow> [] | Some ps \<Rightarrow> ps)"

definition scope_goTo ::
  "env \<Rightarrow> parent \<Rightarrow> scope \<Rightarrow> dest \<Rightarrow> options option \<Rightarrow> router_state
     \<Rightarrow> (error + nav) \<times> router_state" where
  "scope_goTo env par s to opts st =
     (let navArg = (case to of DObj ob \<Rightarrow> DObj (spreads [parent_params par, ob]) | _ \<Rightarrow> to);
          merged = (case opts of
                      None \<Rightarrow> \<lparr>opt_pattern = Some (pattern s), opt_replace = None\<rparr>
                    | Some given \<Rightarrow>
                        \<lparr>opt_pattern = (case opt_pattern given of None \<Rightarrow> Some (pattern s)
                                        | Some p \<Rightarrow> Some p),
                         opt_replace = opt_replace given\<rparr>)
      in navigate env navArg (Options merged) False st)"

section \<open>A reference pattern library\<close>

text \<open>
  The behaviour of \<open>url-pattern\<close> 1.0.3 with its default options, for the examples: a
  pattern is a sequence of static text, named segments \<open>:name\<close>, wildcards \<open>*\<close> and
  optional groups \<open>(...)\<close>; a backslash escapes the next character. The constructor
  rejects the empty string, white space and what it cannot parse to the end.
\<close>

datatype node = Wildcard | Named string | Static string | Optional "node list"

definition name_char :: "char \<Rightarrow> bool" where
  "name_char c =
     (c \<in> set ''abcdefghijklmnopqrstuvwxyzABCDEFGHIJKLMNOPQRSTUVWXYZ0123456789'')"

definition value_char :: "char \<Rightarrow> bool" where
  "value_char c = (name_char c \<or> c \<in> set ''-_~ %'')"

definition special_char :: "char \<Rightarrow> bool" where
  "special_char c = (c \<in> set '':*()'')"

definition white_char :: "char \<Rightarrow> bool" where
  "white_char c = (c \<in> set [CHR '' '', CHR 0x09, CHR 0x0A, CHR 0x0B, CHR 0x0C, CHR 0x0D])"

definition line_end :: "char \<Rightarrow> bool" where
  "line_end c = (c \<in> set [CHR 0x0A, CHR 0x0D])"

text \<open>A run of static text: up to the next special character, escapes resolved.\<close>

fun static_run :: "string \<Rightarrow> string \<times> string" where
  "static_run [] = ([], [])"
| "static_run [c] = (if special_char c then ([], [c]) else ([c], []))"
| "static_run (c # d # cs) =
     (if special_char c then ([], c # d # cs)
      else if c = CHR 0x5C then (case static_run cs of (s, r) \<Rightarrow> (d # s, r))
      else (case static_run (d # cs) of (s, r) \<Rightarrow> (c # s, r)))"

lemma static_run_length: "length (snd (static_run s)) \<le> length s"
  by (induction s rule: static_run.induct) (auto split: prod.splits)

lemma static_run_shorter:
  assumes "\<not> special_char c"
  shows "length (snd (static_run (c # cs))) < Suc (length cs)"
proof (cases cs)
  case Nil
  with assms show ?thesis by simp
next
  case (Cons d ds)
  with assms show ?thesis
    using static_run_length [of ds] static_run_length [of "d # ds"]
    by (auto split: prod.splits)
qed

text \<open>The tokens are read from the left; \<open>cur\<close> holds the nodes of the group being
  read, last first, and \<open>stack\<close> the groups around it.\<close>

function parse_pattern :: "string \<Rightarrow> node list \<Rightarrow> node list list \<Rightarrow> node list option" where
  "parse_pattern [] cur stack = (if stack = [] \<and> cur \<noteq> [] then Some (rev cur) else None)"
| "parse_pattern (c # cs) cur stack =
     (if c = CHR ''*'' then parse_pattern cs (Wildcard # cur) stack
      else if c = CHR ''('' then parse_pattern cs [] (cur # stack)
      else if c = CHR '')'' then
        (case stack of
           [] \<Rightarrow> None
         | up # stack' \<Rightarrow>
             if cur = [] then None else parse_pattern cs (Optional (rev cur) # up) stack')
      else if c = CHR '':'' then
        (if takeWhile name_char cs = [] then None
         else parse_pattern (dropWhile name_char cs) (Named (takeWhile name_char cs) # cur) stack)
      else parse_pattern (snd (static_run (c # cs))) (Static (fst (static_run (c # cs))) # cur) stack)"
  by pat_completeness auto
termination
proof (relation "measure (\<lambda>(s, cur, stack). length s)")
  fix c :: char and cs :: string and cur :: "node list" and stack :: "node list list"
  assume "c \<noteq> CHR ''*''" "c \<noteq> CHR ''(''" "c \<noteq> CHR '')''" "c \<noteq> CHR '':''"
  then have "\<not> special_char c" by (simp add: special_char_def)
  then show "((snd (static_run (c # cs)), Static (fst (static_run (c # cs))) # cur, stack),
              c # cs, cur, stack) \<in> measure (\<lambda>(s, cur, stack). length s)"
    using static_run_shorter [of c cs] by simp
qed (auto simp: length_dropWhile_le less_Suc_eq_le)

fun node_names :: "node \<Rightarrow> string list" where
  "node_names Wildcard = [''_'']"
| "node_names (Named n) = [n]"
| "node_names (Static s) = []"
| "node_names (Optional ns) = concat (map node_names ns)"

definition ast_names :: "node list \<Rightarrow> string list" where
  "ast_names ast = concat (map node_names ast)"

text \<open>
  Matching is that of the regular expression the library builds: \<open>(.*?)\<close> for a
  wildcard (shortest first), \<open>([a-zA-Z0-9-_~ %]+)\<close> for a named segment (longest first),
  \<open>(?:...)?\<close> for an optional group (taken first, without an empty iteration, then
  skipped with its captures unset), between \<open>^\<close> and \<open>$\<close>. The functions list every
  way to match a prefix, in the order backtracking tries them, with the captures and
  the rest of the input.
\<close>

fun node_matches :: "node \<Rightarrow> string \<Rightarrow> (string option list \<times> string) list"
  and nodes_matches :: "node list \<Rightarrow> string \<Rightarrow> (string option list \<times> string) list" where
  "node_matches Wildcard s =
     map (\<lambda>n. ([Some (take n s)], drop n s))
       [0 ..< Suc (length (takeWhile (\<lambda>c. \<not> line_end c) s))]"
| "node_matches (Named x) s =
     map (\<lambda>n. ([Some (take n s)], drop n s))
       (rev [1 ..< Suc (length (takeWhile value_char s))])"
| "node_matches (Static t) s =
     (if take (length t) s = t then [([], drop (length t) s)] else [])"
| "node_matches (Optional ns) s =
     filter (\<lambda>(c, r). length r < length s) (nodes_matches ns s)
     @ [(replicate (length (concat (map node_names ns))) None, s)]"
| "nodes_matches [] s = [([], s)]"
| "nodes_matches (n # ns) s =
     concat (map (\<lambda>(c, r). map (\<lambda>(c', r'). (c @ c', r')) (nodes_matches ns r))
               (node_matches n s))"

text \<open>\<open>keysAndValuesToObject\<close>: unset captures are left out, a name that captures
  again collects its values in an array.\<close>

fun add_capture :: "obj \<Rightarrow> string \<times> string option \<Rightarrow> obj" where
  "add_capture ob (k, None) = ob"
| "add_capture ob (k, Some v) =
     (case map_of ob k of
        None \<Rightarrow> AList.update k (Str v) ob
      | Some (Arr vs) \<Rightarrow> AList.update k (Arr (vs @ [Str v])) ob
      | Some x \<Rightarrow> AList.update k (Arr [x, Str v]) ob)"

definition match_ast :: "node list \<Rightarrow> string \<Rightarrow> obj option" where
  "match_ast ast url =
     (case find (\<lambda>(c, r). r = []) (nodes_matches ast url) of
        None \<Rightarrow> None
      | Some (c, r) \<Rightarrow> Some (foldl add_capture [] (zip (ast_names ast) c)))"

text \<open>Values as string concatenation writes them (a built-in function as V8 prints
  it).\<close>

fun digits_of :: "nat \<Rightarrow> nat \<Rightarrow> string" where
  "digits_of 0 n = []"
| "digits_of (Suc fuel) n =
     (if n < 10 then [''0123456789'' ! n]
      else digits_of fuel (n div 10) @ [''0123456789'' ! (n mod 10)])"

definition string_of_nat :: "nat \<Rightarrow> string" where
  "string_of_nat n = digits_of (Suc n) n"

definition string_of_int :: "int \<Rightarrow> string" where
  "string_of_int i = (if i < 0 then CHR ''-'' # string_of_nat (nat (- i)) else string_of_nat (nat i))"

fun join :: "string \<Rightarrow> string list \<Rightarrow> string" where
  "join sep [] = []"
| "join sep [x] = x"
| "join sep (x # y # xs) = x @ sep @ join sep (y # xs)"

fun js_string :: "jsval \<Rightarrow> string" where
  "js_string Undefined = ''undefined''"
| "js_string Null = ''null''"
| "js_string (Bool b) = (if b then ''true'' else ''false'')"
| "js_string (Num i) = string_of_int i"
| "js_string (Str s) = s"
| "js_string (Arr vs) =
     join '','' (map (\<lambda>v. if v = Null \<or> v = Undefined then [] else js_string v) vs)"
| "js_string (Inherited k) =
     (if k = ''__proto__'' then ''[object Object]''
      else ''function '' @ (if k = ''constructor'' then ''Object'' else k) @ ''() { [native code] }'')"

text \<open>
  \<open>getParam\<close>: the value of a key that the next use of the key writes. A value that
  is null or undefined counts as not provided; a value that is no array serves one use
  and an array one use per element. \<open>idx\<close> is \<open>nextIndexes\<close>, an object too:
  under a name of \<open>Object.prototype\<close> the index read is no number, the comparison
  with the last index is false at every use, and an array has nothing at that index.
\<close>

definition getParam :: "obj \<Rightarrow> string \<Rightarrow> (string \<times> nat) list \<Rightarrow> jsval option" where
  "getParam ps key idx =
     (let v = js_get ps key;
          i = (case map_of idx key of None \<Rightarrow> 0 | Some n \<Rightarrow> n)
      in if v = Undefined \<or> v = Null then None
         else if key \<in> set Object_prototype then
           (case v of Arr vs \<Rightarrow> Some Undefined | _ \<Rightarrow> Some v)
         else (case v of
                 Arr vs \<Rightarrow> if i < length vs then Some (vs ! i) else None
               | _ \<Rightarrow> if i = 0 then Some v else None))"

definition provided :: "obj \<Rightarrow> string \<Rightarrow> (string \<times> nat) list \<Rightarrow> bool" where
  "provided ps key idx =
     (case getParam ps key idx of None \<Rightarrow> False | Some v \<Rightarrow> v \<noteq> Undefined \<and> v \<noteq> Null)"

definition next_index :: "string \<Rightarrow> (string \<times> nat) list \<Rightarrow> (string \<times> nat) list" where
  "next_index key idx =
     AList.update key (Suc (case map_of idx key of None \<Rightarrow> 0 | Some n \<Rightarrow> n)) idx"

text \<open>An optional group is written when one of its segments has a value provided.\<close>

fun contains_provided :: "node \<Rightarrow> obj \<Rightarrow> (string \<times> nat) list \<Rightarrow> bool" where
  "contains_provided Wildcard ps idx = provided ps ''_'' idx"
| "contains_provided (Named n) ps idx = provided ps n idx"
| "contains_provided (Static s) ps idx = False"
| "contains_provided (Optional ns) ps idx = list_ex (\<lambda>n. contains_provided n ps idx) ns"

fun stringify_node ::
    "node \<Rightarrow> obj \<Rightarrow> (string \<times> nat) list \<Rightarrow> error + string \<times> (string \<times> nat) list"
  and stringify_nodes ::
    "node list \<Rightarrow> obj \<Rightarrow> (string \<times> nat) list \<Rightarrow> error + string \<times> (string \<times> nat) list" where
  "stringify_node Wildcard ps idx =
     (case getParam ps ''_'' idx of
        None \<Rightarrow> Inl PatternMismatchError
      | Some v \<Rightarrow> Inr (js_string v, next_index ''_'' idx))"
| "stringify_node (Named n) ps idx =
     (case getParam ps n idx of
        None \<Rightarrow> Inl PatternMismatchError
      | Some v \<Rightarrow> Inr (js_string v, next_index n idx))"
| "stringify_node (Static s) ps idx = Inr (s, idx)"
| "stringify_node (Optional ns) ps idx =
     (if list_ex (\<lambda>n. contains_provided n ps idx) ns then stringify_nodes ns ps idx
      else Inr ([], idx))"
| "stringify_nodes [] ps idx = Inr ([], idx)"
| "stringify_nodes (n # ns) ps idx =
     (case stringify_node n ps idx of
        Inl e \<Rightarrow> Inl e
      | Inr (s, idx') \<Rightarrow>
          (case stringify_nodes ns ps idx' of
             Inl e \<Rightarrow> Inl e
           | Inr (t, idx'') \<Rightarrow> Inr (s @ t, idx'')))"

definition stringify_ast :: "node list \<Rightarrow> obj \<Rightarrow> error + string" where
  "stringify_ast ast ps =
     (case stringify_nodes ast ps [] of Inl e \<Rightarrow> Inl e | Inr (s, idx) \<Rightarrow> Inr s)"

definition UrlPattern_lib :: "string \<Rightarrow> error + parser" where
  "UrlPattern_lib p =
     (if p = [] \<or> list_ex white_char p then Inl PatternCompileError
      else (case parse_pattern p [] [] of
              None \<Rightarrow> Inl PatternCompileError
            | Some ast \<Rightarrow>
                Inr \<lparr>up_names = ast_names ast, up_match = match_ast ast,
                     up_stringify = stringify_ast ast\<rparr>))"

section \<open>A reference query codec and URL constructor\<close>

text \<open>
  The behaviour of \<open>query-string\<close> 6.13 (\<open>parse\<close> with \<open>parseNumbers\<close> and
  \<open>parseBooleans\<close>, \<open>stringifyUrl\<close>) on the inputs of the examples: query strings
  without percent escapes, surrounding white space or empty parameters, whose numbers
  are decimal integers and whose booleans are in lower case; URLs without \<open>?\<close> and
  \<open>#\<close>.
\<close>

fun split_on :: "char \<Rightarrow> string \<Rightarrow> string list" where
  "split_on sep [] = [[]]"
| "split_on sep (c # cs) =
     (case split_on sep cs of
        [] \<Rightarrow> [[c]]
      | w # ws \<Rightarrow> if c = sep then [] # w # ws else (c # w) # ws)"

definition splitOnFirst :: "char \<Rightarrow> string \<Rightarrow> string \<times> string option" where
  "splitOnFirst sep s =
     (if sep \<in> set s
      then (takeWhile (\<lambda>c. c \<noteq> sep) s, Some (tl (dropWhile (\<lambda>c. c \<noteq> sep) s)))
      else (s, None))"

definition digit_char :: "char \<Rightarrow> bool" where
  "digit_char c = (c \<in> set ''0123456789'')"

definition digit_val :: "char \<Rightarrow> nat" where
  "digit_val c = length (takeWhile (\<lambda>d. d \<noteq> c) ''0123456789'')"

definition nat_of_digits :: "string \<Rightarrow> nat" where
  "nat_of_digits s = foldl (\<lambda>n c. 10 * n + digit_val c) 0 s"

definition parseValue :: "jsval \<Rightarrow> jsval" where
  "parseValue v =
     (case v of
        Str s \<Rightarrow>
          if s \<noteq> [] \<and> list_all digit_char s then Num (int (nat_of_digits s))
          else if 1 < length s \<and> hd s = CHR ''-'' \<and> list_all digit_char (tl s)
            then Num (- int (nat_of_digits (tl s)))
          else if s = ''true'' then Bool True
          else if s = ''false'' then Bool False
          else Str s
      | _ \<Rightarrow> v)"

definition parse_param :: "obj \<Rightarrow> string \<Rightarrow> obj" where
  "parse_param ret param =
     (case splitOnFirst CHR ''='' (map (\<lambda>c. if c = CHR ''+'' then CHR '' '' else c) param) of
        (key, value) \<Rightarrow>
          (let v = (case value of None \<Rightarrow> Null | Some s \<Rightarrow> Str s) in
           case map_of ret key of
             None \<Rightarrow> AList.update key v ret
           | Some (Arr vs) \<Rightarrow> AList.update key (Arr (vs @ [v])) ret
           | Some x \<Rightarrow> AList.update key (Arr [x, v]) ret))"

fun str_less :: "string \<Rightarrow> string \<Rightarrow> bool" where
  "str_less [] [] = False"
| "str_less [] (d # ds) = True"
| "str_less (c # cs) [] = False"
| "str_less (c # cs) (d # ds) =
     ((of_char c :: nat) < of_char d \<or> (c = d \<and> str_less cs ds))"

fun insert_key :: "string \<times> jsval \<Rightarrow> obj \<Rightarrow> obj" where
  "insert_key e [] = [e]"
| "insert_key e (x # xs) = (if str_less (fst e) (fst x) then e # x # xs else x # insert_key e xs)"

definition sort_keys :: "obj \<Rightarrow> obj" where
  "sort_keys ob = foldr insert_key ob []"

definition qs_parse_lib :: "string \<Rightarrow> obj" where
  "qs_parse_lib query =
     (let q = (case query of [] \<Rightarrow> [] | c # cs \<Rightarrow> if c \<in> set ''?#&'' then cs else c # cs) in
      if q = [] then []
      else sort_keys
             (map (\<lambda>(k, v). (k, case v of Arr vs \<Rightarrow> Arr (map parseValue vs) | _ \<Rightarrow> parseValue v))
                (foldl parse_param [] (split_on CHR ''&'' q))))"

definition unreserved :: "char \<Rightarrow> bool" where
  "unreserved c = (name_char c \<or> c \<in> set ''-_.~'')"

definition encode :: "string \<Rightarrow> string" where
  "encode s =
     concat (map (\<lambda>c. if unreserved c then [c]
                       else [CHR ''%'', ''0123456789ABCDEF'' ! (of_char c div 16),
                             ''0123456789ABCDEF'' ! (of_char c mod 16)]) s)"

definition encode_pair :: "string \<Rightarrow> jsval \<Rightarrow> string list" where
  "encode_pair key v =
     (if v = Undefined then []
      else if v = Null then [encode key]
      else [encode key @ ''='' @ encode (js_string v)])"

definition qs_stringify_lib :: "obj \<Rightarrow> string" where
  "qs_stringify_lib ob =
     join ''&''
       (filter (\<lambda>x. x \<noteq> [])
          (map (\<lambda>(k, v). case v of
                            Arr vs \<Rightarrow> join ''&'' (concat (map (encode_pair k) vs))
                          | _ \<Rightarrow> join ''&'' (encode_pair k v))
             (sort_keys (entries ob))))"

definition qs_stringifyUrl_lib :: "string \<Rightarrow> obj \<Rightarrow> string" where
  "qs_stringifyUrl_lib url query =
     (let q = qs_stringify_lib query in if q = [] then url else url @ ''?'' @ q)"

text \<open>
  \<open>new URL(s)\<close> without a base: a string that begins with a slash is a relative
  reference and is rejected with a TypeError. Of the absolute URLs only those of the
  shape \<open>http://host/path?query#fragment\<close> (or \<open>https\<close>) are read here; the others
  are rejected like the relative ones.
\<close>

definition strip_prefix :: "string \<Rightarrow> string \<Rightarrow> string option" where
  "strip_prefix p s = (if take (length p) s = p then Some (drop (length p) s) else None)"

definition url_parts :: "string \<Rightarrow> location" where
  "url_parts s =
     (let after_host = dropWhile (\<lambda>c. c \<notin> set ''/?#'') s;
          path = takeWhile (\<lambda>c. c \<notin> set ''?#'') after_host;
          after_path = dropWhile (\<lambda>c. c \<notin> set ''?#'') after_host;
          query = takeWhile (\<lambda>c. c \<noteq> CHR ''#'') after_path;
          fragment = dropWhile (\<lambda>c. c \<noteq> CHR ''#'') after_path
      in \<lparr>pathname = (if path = [] then ''/'' else path),
          search = (if query = ''?'' then [] else query),
          hash = (if fragment = ''#'' then [] else fragment),
          state = None\<rparr>)"

definition URL_lib :: "string \<Rightarrow> error + location" where
  "URL_lib s =
     (case strip_prefix ''http://'' s of
        Some r \<Rightarrow> Inr (url_parts r)
      | None \<Rightarrow>
          (case strip_prefix ''https://'' s of
             Some r \<Rightarrow> Inr (url_parts r)
           | None \<Rightarrow> Inl TypeError))"

definition lib :: "location \<Rightarrow> env" where
  "lib here =
     \<lparr>UrlPattern = UrlPattern_lib, qs_parse = qs_parse_lib,
      qs_stringifyUrl = qs_stringifyUrl_lib, URL = URL_lib, history_location = here\<rparr>"

section \<open>Notions of the specification\<close>

text \<open>The value a key takes from four sources with precedence, lowest to highest,
  state, hash, search, path: that of the highest source that has the key.\<close>

definition precedence_merge ::
  "(string \<rightharpoonup> jsval) \<Rightarrow> (string \<rightharpoonup> jsval) \<Rightarrow> (string \<rightharpoonup> jsval) \<Rightarrow> (string \<rightharpoonup> jsval)
     \<Rightarrow> string \<Rightarrow> jsval option" where
  "precedence_merge state_ps hash_ps search_ps path_ps k =
     (case path_ps k of
        Some v \<Rightarrow> Some v
      | None \<Rightarrow>
          (case search_ps k of
             Some v \<Rightarrow> Some v
           | None \<Rightarrow> (case hash_ps k of Some v \<Rightarrow> Some v | None \<Rightarrow> state_ps k)))"

text \<open>A named segment that the pattern requires: it is one of the parser's names, and
  the parser's \<open>stringify\<close> throws when the parameters give it no value.\<close>

definition required_segment :: "parser \<Rightarrow> string \<Rightarrow> bool" where
  "required_segment parser n =
     (n \<in> set (up_names parser)
      \<and> (\<forall>ps. js_get ps n = Undefined \<longrightarrow> up_stringify parser ps = Inl PatternMismatchError))"

text \<open>A query codec whose \<open>stringifyUrl\<close> leaves the leading slash of the URL it
  is given where it is.\<close>

definition keeps_leading_slash :: "env \<Rightarrow> bool" where
  "keeps_leading_slash env = (\<forall>u q. \<exists>t. qs_stringifyUrl env (CHR ''/'' # u) q = CHR ''/'' # t)"

text \<open>The invariant of the cache: what is stored under a pattern is what the
  constructor returns for that pattern, and no pattern stored is the name of a member of
  \<open>Object.prototype\<close>.\<close>

definition coherent :: "env \<Rightarrow> router_state \<Rightarrow> bool" where
  "coherent env st =
     (\<forall>p c. parsers st p = Some c \<longrightarrow> UrlPattern env p = Inr c \<and> p \<notin> set Object_prototype)"





section \<open>The examples\<close>

text \<open>The reference libraries' module state right after loading, and the locations of the
  examples.\<close>

definition lib_default_parser :: parser where
  "lib_default_parser =
     \<lparr>up_names = ast_names [Optional [Wildcard]], up_match = match_ast [Optional [Wildcard]],
      up_stringify = stringify_ast [Optional [Wildcard]]\<rparr>"

definition lib_state :: router_state where
  "lib_state = \<lparr>defaultPattern = DEFAULT_PATTERN, parsers = [DEFAULT_PATTERN \<mapsto> lib_default_parser]\<rparr>"

definition at_root :: location where
  "at_root = \<lparr>pathname = ''/'', search = [], hash = [], state = None\<rparr>"

definition admin_users_7 :: location where
  "admin_users_7 = \<lparr>pathname = ''/admin/users/7'', search = ''?adminId=3'', hash = [], state = None\<rparr>"

definition admin_3_users_7 :: location where
  "admin_3_users_7 = \<lparr>pathname = ''/admin/3/users/7'', search = [], hash = [], state = None\<rparr>"

section \<open>Objects as maps\<close>

lemma map_of_fold_update:
  "distinct (map fst b) \<Longrightarrow>
     map_of (fold (\<lambda>(k, v). AList.update k v) b a) = map_of a ++ map_of b"
proof (induction b arbitrary: a)
  case Nil
  then show ?case by simp
next
  case (Cons p b)
  obtain k v where p: "p = (k, v)" by (cases p)
  from Cons.prems p have nk: "map_of b k = None" and d: "distinct (map fst b)"
    by (auto simp: map_of_eq_None_iff)
  have "map_of (fold (\<lambda>(k, v). AList.update k v) (p # b) a)
        = map_of (AList.update k v a) ++ map_of b"
    using Cons.IH [OF d] p by simp
  also have "\<dots> = (map_of a)(k \<mapsto> v) ++ map_of b" by (simp add: update_conv')
  also have "\<dots> = map_of a ++ map_of (p # b)"
  proof (rule ext)
    fix x
    show "((map_of a)(k \<mapsto> v) ++ map_of b) x = (map_of a ++ map_of (p # b)) x"
      using nk p by (cases "x = k") (simp_all add: map_add_def split: option.splits)
  qed
  finally show ?case .
qed

lemma map_of_spread: "map_of (spread a b) = map_of a ++ map_of b"
  unfolding spread_def entries_def
  by (simp add: map_of_fold_update distinct_clearjunk map_of_clearjunk)

lemma map_of_fromEntries: "distinct (map fst es) \<Longrightarrow> map_of (fromEntries es) = map_of es"
  unfolding fromEntries_def by (simp add: map_of_fold_update)

lemma map_of_spreads2: "map_of (spreads [a, b]) = map_of a ++ map_of b"
  by (simp add: spreads_def map_of_spread)

lemma map_of_spreads4:
  "map_of (spreads [a, b, c, d]) = map_of a ++ map_of b ++ map_of c ++ map_of d"
  by (simp add: spreads_def map_of_spread)

lemma map_of_omit: "map_of (omit keys ob) = map_of ob |` (- set keys)"
proof -
  have d: "distinct (map fst (filter (\<lambda>(k, v). k \<notin> set keys) (entries ob)))"
    unfolding entries_def by (simp add: distinct_map_filter distinct_clearjunk)
  have "map_of (omit keys ob) = map_of (filter (\<lambda>(k, v). k \<notin> set keys) (entries ob))"
    unfolding omit_def by (rule map_of_fromEntries [OF d])
  also have "\<dots> = map_of (entries ob) |` (- set keys)"
  proof -
    have "filter (\<lambda>(k, v). k \<notin> set keys) (entries ob) = AList.restrict (- set keys) (entries ob)"
      by (simp add: AList.restrict_eq)
    then show ?thesis by (simp add: restr_conv')
  qed
  finally show ?thesis by (simp add: entries_def map_of_clearjunk)
qed

lemma map_of_fold_update_rev:
  "map_of (fold (\<lambda>(k, v). AList.update k v) es a) = map_of a ++ map_of (rev es)"
proof (induction es arbitrary: a)
  case Nil
  then show ?case by simp
next
  case (Cons e es)
  obtain k v where e: "e = (k, v)" by (cases e)
  have "map_of (fold (\<lambda>(k, v). AList.update k v) (e # es) a)
        = map_of (AList.update k v a) ++ map_of (rev es)"
    using Cons.IH e by simp
  also have "\<dots> = (map_of a ++ [k \<mapsto> v]) ++ map_of (rev es)"
    by (simp add: update_conv')
  also have "\<dots> = map_of a ++ map_of (rev (e # es))"
    using e by (simp add: map_of_append)
  finally show ?case .
qed

lemma map_of_pick:
  "map_of (pick keys ob) k = (if k \<in> set keys then Some (js_get ob k) else None)"
proof -
  have "map_of (pick keys ob) = map_of (map (\<lambda>k. (k, js_get ob k)) (rev keys))"
    by (simp add: pick_def fromEntries_def map_of_fold_update_rev rev_map)
  also have "\<dots> = (Some \<circ> js_get ob) |` set (rev keys)"
    by (rule map_of_map_restrict)
  finally show ?thesis by (simp add: restrict_map_def)
qed

lemma map_of_pathnameParams:
  "map_of (spreads [[(''_'', Str [])], pick keys ob]) k =
     (if k \<in> set keys then Some (js_get ob k) else if k = ''_'' then Some (Str []) else None)"
  by (simp add: map_of_spreads2 map_add_def map_of_pick)

lemma js_get_pathnameParams:
  "n \<in> set keys \<Longrightarrow> js_get (spreads [[(''_'', Str [])], pick keys ob]) n = js_get ob n"
  by (simp add: js_get_def [of "spreads [[(''_'', Str [])], pick keys ob]"] map_of_pathnameParams)

lemma merged_precedence:
  "(s ++ h ++ q ++ p) k = precedence_merge s h q p k"
  by (simp add: precedence_merge_def map_add_def split: option.splits)

section \<open>The cache and the results as functions of the state\<close>

lemma default_not_inherited: "DEFAULT_PATTERN \<notin> set Object_prototype"
  by (simp add: DEFAULT_PATTERN_def Object_prototype_def)

lemma coherent_initial: "initial_state env = Inr st \<Longrightarrow> coherent env st"
  using default_not_inherited
  by (auto simp: initial_state_def coherent_def split: sum.splits if_splits)

lemma coherent_setPattern: "coherent env st \<Longrightarrow> coherent env (setPattern pat st)"
  by (simp add: coherent_def setPattern_def)

lemma coherent_getParser: "coherent env st \<Longrightarrow> coherent env (snd (getParser env pat st))"
  by (auto simp: coherent_def getParser_def lookup_def Let_def
           split: option.splits sum.splits if_splits)

lemma reachable_coherent: "reachable env st \<Longrightarrow> coherent env st"
  by (induction rule: reachable.induct)
     (simp_all add: coherent_initial coherent_setPattern coherent_getParser)

lemma getParser_explicit:
  "coherent env st \<Longrightarrow>
     fst (getParser env (Some p) st) =
       (if p \<in> set Object_prototype then Inr (NotAParser p)
        else (case UrlPattern env p of Inl e \<Rightarrow> Inl e | Inr c \<Rightarrow> Inr (Compiled c)))"
  by (auto simp: coherent_def getParser_def lookup_def split: option.splits sum.splits)

lemma fst_toOwnParams:
  "fst (toOwnParams env a pat st) =
     (case location_of env a of
        Inl e \<Rightarrow> Inl e
      | Inr l \<Rightarrow>
          if pat = None \<or> pat = Some [] then Inr []
          else (case fst (getParser env pat st) of
                  Inl e \<Rightarrow> Inl e
                | Inr (NotAParser k) \<Rightarrow> Inl TypeError
                | Inr (Compiled parser) \<Rightarrow>
                    Inr (case up_match parser (trimSlashes (pathname l)) of
                           None \<Rightarrow> [] | Some m \<Rightarrow> m)))"
  by (cases "location_of env a"; cases "getParser env pat st"; cases "fst (getParser env pat st)")
     (auto simp: toOwnParams_def split: found.splits)

lemma snd_toOwnParams:
  "snd (toOwnParams env a pat st) = st \<or> snd (toOwnParams env a pat st) = snd (getParser env pat st)"
  by (simp add: toOwnParams_def split: sum.splits prod.splits found.splits)

lemma coherent_toOwnParams:
  "coherent env st \<Longrightarrow> coherent env (snd (toOwnParams env a pat st))"
  using snd_toOwnParams [of env a pat st] coherent_getParser [of env st pat] by auto

lemma fst_toParams:
  "fst (toParams env a pat st) =
     (case location_of env a of
        Inl e \<Rightarrow> Inl e
      | Inr l \<Rightarrow>
          (case fst (toOwnParams env a pat st) of
             Inl e \<Rightarrow> Inl e
           | Inr pathParams \<Rightarrow>
               Inr (spreads [state_or_empty l, qs_parse env (hash l), qs_parse env (search l),
                             pathParams])))"
  by (simp add: toParams_def Let_def split: sum.splits prod.splits)

lemma snd_toParams:
  "snd (toParams env a pat st) = st \<or> snd (toParams env a pat st) = snd (toOwnParams env a pat st)"
  by (simp add: toParams_def Let_def split: sum.splits prod.splits)

lemma coherent_toParams:
  "coherent env st \<Longrightarrow> coherent env (snd (toParams env a pat st))"
  using snd_toParams [of env a pat st] coherent_toOwnParams [of env st a pat] by auto

lemma toOwnParams_explicit:
  assumes "coherent env st1" "coherent env st2"
  shows "fst (toOwnParams env a (Some p) st1) = fst (toOwnParams env a (Some p) st2)"
  unfolding fst_toOwnParams getParser_explicit [OF assms(1)] getParser_explicit [OF assms(2)] ..

lemma toParams_explicit:
  assumes "coherent env st1" "coherent env st2"
  shows "fst (toParams env a (Some p) st1) = fst (toParams env a (Some p) st2)"
  unfolding fst_toParams toOwnParams_explicit [OF assms] ..

lemma fst_stringify:
  "fst (stringify env ps pat st) =
     (case fst (getParser env pat st) of
        Inl e \<Rightarrow> Inl e
      | Inr (NotAParser k) \<Rightarrow> Inl TypeError
      | Inr (Compiled parser) \<Rightarrow>
          (case up_stringify parser (spreads [[(''_'', Str [])], pick (up_names parser) ps]) of
             Inl e \<Rightarrow> Inl e
           | Inr s \<Rightarrow>
               Inr (qs_stringifyUrl env (if s = [] then ''/'' else s) (omit (up_names parser) ps))))"
  by (simp add: stringify_def Let_def split: sum.splits prod.splits found.splits)

lemma stringify_explicit:
  assumes "coherent env st1" "coherent env st2"
  shows "fst (stringify env ps (Some p) st1) = fst (stringify env ps (Some p) st2)"
  unfolding fst_stringify getParser_explicit [OF assms(1)] getParser_explicit [OF assms(2)] ..

lemma fst_parameterize:
  "fst (parameterize env to pat st) =
     (case to of
        DObj ob \<Rightarrow> Inr ob
      | DFun f \<Rightarrow> (case fst (toParams env (Loc (history_location env)) pat st) of
                     Inl e \<Rightarrow> Inl e | Inr cur \<Rightarrow> Inr (f cur))
      | DStr s \<Rightarrow> fst (toParams env (Loc (history_location env)) pat st))"
  by (simp add: parameterize_def getCurrParams_def split: dest.splits sum.splits prod.splits)

lemma snd_parameterize:
  "snd (parameterize env to pat st) = st
   \<or> snd (parameterize env to pat st) = snd (toParams env (Loc (history_location env)) pat st)"
  by (simp add: parameterize_def getCurrParams_def split: dest.splits sum.splits prod.splits)

lemma coherent_parameterize:
  "coherent env st \<Longrightarrow> coherent env (snd (parameterize env to pat st))"
  using snd_parameterize [of env to pat st] coherent_toParams [of env st] by auto

lemma parameterize_explicit:
  assumes "coherent env st1" "coherent env st2"
  shows "fst (parameterize env to (Some p) st1) = fst (parameterize env to (Some p) st2)"
  unfolding fst_parameterize toParams_explicit [OF assms] ..

lemma fst_toUrl:
  "fst (toUrl env to pat st) =
     (case to of
        DStr s \<Rightarrow> Inr s
      | _ \<Rightarrow> (case fst (parameterize env to pat st) of
                Inl e \<Rightarrow> Inl e
              | Inr ps \<Rightarrow> fst (stringify env ps pat (snd (parameterize env to pat st)))))"
  by (simp add: toUrl_def split: dest.splits sum.splits prod.splits)

lemma toUrl_explicit:
  assumes "coherent env st1" "coherent env st2"
  shows "fst (toUrl env to (Some p) st1) = fst (toUrl env to (Some p) st2)"
proof -
  have p: "fst (parameterize env to (Some p) st1) = fst (parameterize env to (Some p) st2)"
    using assms by (rule parameterize_explicit)
  have s: "\<And>ps. fst (stringify env ps (Some p) (snd (parameterize env to (Some p) st1)))
              = fst (stringify env ps (Some p) (snd (parameterize env to (Some p) st2)))"
    using assms by (intro stringify_explicit coherent_parameterize)
  show ?thesis
    unfolding fst_toUrl p s ..
qed

lemma fst_toParams_v0:
  "fst (toParams_v0 env a pat st) =
     (case location_of env a of
        Inl e \<Rightarrow> Inl e
      | Inr l \<Rightarrow>
          (case fst (getParser env pat st) of
             Inl e \<Rightarrow> Inl e
           | Inr (NotAParser k) \<Rightarrow> Inl TypeError
           | Inr (Compiled parser) \<Rightarrow>
               Inr (spreads [state_or_empty l, qs_parse env (hash l), qs_parse env (search l),
                             (case up_match parser (trimSlashes (pathname l)) of
                                None \<Rightarrow> [] | Some m \<Rightarrow> m)])))"
  by (cases "location_of env a"; cases "getParser env pat st"; cases "fst (getParser env pat st)")
     (auto simp: toParams_v0_def Let_def split: found.splits)

lemma toParams_v0_explicit:
  assumes "coherent env st1" "coherent env st2"
  shows "fst (toParams_v0 env a (Some p) st1) = fst (toParams_v0 env a (Some p) st2)"
  unfolding fst_toParams_v0 getParser_explicit [OF assms(1)] getParser_explicit [OF assms(2)] ..



lemma toUrl_DObj:
  assumes "getParser env pat st = (Inr (Compiled parser), st')"
      and "up_stringify parser (spreads [[(''_'', Str [])], pick (up_names parser) ps]) = Inr path"
  shows "toUrl env (DObj ps) pat st
           = (Inr (qs_stringifyUrl env (if path = [] then ''/'' else path)
                     (omit (up_names parser) ps)), st')"
  using assms by (simp add: toUrl_def parameterize_def stringify_def Let_def)

lemma fst_router:
  "fst (router env own loc par st) =
     (case fst (toParams env (Loc loc) (Some (parent_rootPattern par @ own @ ''(*)'')) st) of
        Inl e \<Rightarrow> Inl e
      | Inr all \<Rightarrow>
          (case fst (toOwnParams env (Loc loc) (Some (parent_rootPattern par @ own @ ''(*)''))
                      (snd (toParams env (Loc loc) (Some (parent_rootPattern par @ own @ ''(*)'')) st))) of
             Inl e \<Rightarrow> Inl e
           | Inr own_all \<Rightarrow>
               Inr \<lparr>ownPattern = own,
                    params = AList.delete ''_'' all,
                    pattern = parent_rootPattern par @ own @ ''(*)'',
                    rootParams = AList.delete ''_'' own_all,
                    rootPattern = parent_rootPattern par @ own,
                    rest = (if js_get all ''_'' = Undefined then Str [] else js_get all ''_'')\<rparr>))"
  by (simp add: router_def Let_def split: prod.splits sum.splits)

section \<open>The reference libraries at the examples\<close>

lemma lib_initial_state: "initial_state (lib here) = Inr lib_state"
  by (simp add: initial_state_def lib_def UrlPattern_lib_def DEFAULT_PATTERN_def white_char_def
      special_char_def lib_state_def lib_default_parser_def)

lemma lib_users_id_parser:
  "UrlPattern_lib ''/users/:id'' =
     Inr \<lparr>up_names = [''id''], up_match = match_ast [Static ''/users/'', Named ''id''],
          up_stringify = stringify_ast [Static ''/users/'', Named ''id'']\<rparr>"
  by (simp add: UrlPattern_lib_def white_char_def name_char_def special_char_def ast_names_def)

lemma getParam_undefined: "js_get ps n = Undefined \<Longrightarrow> getParam ps n idx = None"
  by (simp add: getParam_def)

lemma stringify_errors:
  "stringify_node nd ps idx = Inl e \<Longrightarrow> e = PatternMismatchError"
  "stringify_nodes ast ps idx = Inl e \<Longrightarrow> e = PatternMismatchError"
  by (induction nd ps idx and ast ps idx arbitrary: e and e rule: stringify_node_stringify_nodes.induct)
     (auto split: option.splits if_splits sum.splits prod.splits)

lemma stringify_nodes_fails:
  "Named n \<in> set ast \<Longrightarrow> js_get ps n = Undefined \<Longrightarrow>
     stringify_nodes ast ps idx = Inl PatternMismatchError"
proof (induction ast arbitrary: idx)
  case Nil
  then show ?case by simp
next
  case (Cons nd ast)
  show ?case
  proof (cases "stringify_node nd ps idx")
    case (Inl e)
    with stringify_errors(1) [OF Inl] show ?thesis by simp
  next
    case (Inr r)
    obtain s idx' where r: "r = (s, idx')" by (cases r)
    have "nd \<noteq> Named n"
    proof
      assume "nd = Named n"
      with Cons.prems(2) Inr show False by (simp add: getParam_undefined)
    qed
    with Cons.prems(1) have "Named n \<in> set ast" by simp
    from Cons.IH [OF this Cons.prems(2), of idx'] Inr r show ?thesis by simp
  qed
qed

lemma lib_named_required:
  assumes "UrlPattern_lib p = Inr parser" and "parse_pattern p [] [] = Some ast"
      and "Named n \<in> set ast"
  shows "required_segment parser n"
proof -
  from assms(1,2) have parser: "parser = \<lparr>up_names = ast_names ast, up_match = match_ast ast,
                                         up_stringify = stringify_ast ast\<rparr>"
    by (simp add: UrlPattern_lib_def split: if_splits)
  from assms(3) have "n \<in> set (ast_names ast)"
    by (force simp: ast_names_def)
  moreover have "stringify_ast ast ps = Inl PatternMismatchError" if "js_get ps n = Undefined" for ps
    using stringify_nodes_fails [OF assms(3) that, of "[]"] by (simp add: stringify_ast_def)
  ultimately show ?thesis
    by (simp add: required_segment_def parser)
qed

lemma lib_keeps_leading_slash: "keeps_leading_slash (lib here)"
  by (simp add: keeps_leading_slash_def lib_def qs_stringifyUrl_lib_def Let_def)

lemma getParser_pair: "fst (getParser env pat st) = Inr f \<Longrightarrow>
    getParser env pat st = (Inr f, snd (getParser env pat st))"
  by (simp add: prod_eq_iff)

lemma lib_getParser_users_id:
  "fst (getParser (lib here) (Some ''/users/:id'') lib_state) =
     Inr (Compiled \<lparr>up_names = [''id''], up_match = match_ast [Static ''/users/'', Named ''id''],
                    up_stringify = stringify_ast [Static ''/users/'', Named ''id'']\<rparr>)"
  by (simp add: getParser_def lookup_def Object_prototype_def lib_state_def DEFAULT_PATTERN_def
      lib_def lib_users_id_parser)

lemma lib_admin_users_parser:
  "UrlPattern_lib ''/admin/users/:userId(*)'' =
     Inr \<lparr>up_names = [''userId'', ''_''],
          up_match = match_ast [Static ''/admin/users/'', Named ''userId'', Optional [Wildcard]],
          up_stringify = stringify_ast [Static ''/admin/users/'', Named ''userId'', Optional [Wildcard]]\<rparr>"
  by (simp add: UrlPattern_lib_def white_char_def name_char_def special_char_def ast_names_def)

lemma lib_state_coherent: "coherent (lib here) lib_state"
  by (rule reachable_coherent) (rule reachable.init, rule lib_initial_state)

section \<open>The reference pattern library on separated patterns\<close>


























lemma catch_all_unmatched: "nodes_matches [Optional [Wildcard]] [] = [([None], [])]"
  by simp




section \<open>Properties of the specification\<close>

text \<open>
  C1. Full extraction merges the four sources with precedence state < hash < search <
  path. Whenever the location is read and the path parameters are extracted,
  \<open>toParams\<close> returns an object whose value at every key is that of the
  highest-precedence source that has the key; no collision of keys raises anything. The
  same holds of the earlier \<open>toParams\<close>, whose path parameters are the match of the
  cached parser. At pathname \<open>/users/42\<close>, search \<open>id=99\<close> and pattern
  \<open>/users/:id\<close> the extracted \<open>id\<close> is \<open>"42"\<close>.
\<close>

theorem toParams_merge_precedence:
  assumes "location_of env a = Inr l"
  shows "(\<forall>pathParams st'. toOwnParams env a pat st = (Inr pathParams, st') \<longrightarrow>
            (\<exists>r. toParams env a pat st = (Inr r, st') \<and>
               (\<forall>k. map_of r k =
                  precedence_merge (map_of (state_or_empty l)) (map_of (qs_parse env (hash l)))
                    (map_of (qs_parse env (search l))) (map_of pathParams) k)))
       \<and> (\<forall>parser st'. getParser env pat st = (Inr (Compiled parser), st') \<longrightarrow>
            (\<exists>r. toParams_v0 env a pat st = (Inr r, st') \<and>
               (\<forall>k. map_of r k =
                  precedence_merge (map_of (state_or_empty l)) (map_of (qs_parse env (hash l)))
                    (map_of (qs_parse env (search l)))
                    (map_of (case up_match parser (trimSlashes (pathname l)) of
                               None \<Rightarrow> [] | Some m \<Rightarrow> m)) k)))"
proof (intro conjI allI impI)
  fix pathParams st'
  assume own: "toOwnParams env a pat st = (Inr pathParams, st')"
  show "\<exists>r. toParams env a pat st = (Inr r, st') \<and>
          (\<forall>k. map_of r k =
             precedence_merge (map_of (state_or_empty l)) (map_of (qs_parse env (hash l)))
               (map_of (qs_parse env (search l))) (map_of pathParams) k)"
    using assms own
    by (simp add: toParams_def Let_def map_of_spreads4 merged_precedence)
next
  fix parser st'
  assume get: "getParser env pat st = (Inr (Compiled parser), st')"
  show "\<exists>r. toParams_v0 env a pat st = (Inr r, st') \<and>
          (\<forall>k. map_of r k =
             precedence_merge (map_of (state_or_empty l)) (map_of (qs_parse env (hash l)))
               (map_of (qs_parse env (search l)))
               (map_of (case up_match parser (trimSlashes (pathname l)) of
                          None \<Rightarrow> [] | Some m \<Rightarrow> m)) k)"
    using assms get
    by (simp add: toParams_v0_def Let_def map_of_spreads4 merged_precedence)
qed

theorem toParams_merge_precedence_witness:
  "\<exists>r. fst (toParams (lib at_root)
              (Loc \<lparr>pathname = ''/users/42'', search = ''id=99'', hash = [], state = None\<rparr>)
              (Some ''/users/:id'') lib_state) = Inr r
       \<and> map_of r ''id'' = Some (Str ''42'')
       \<and> map_of (qs_parse (lib at_root) ''id=99'') ''id'' = Some (Num 99)"
proof -
  let ?l = "\<lparr>pathname = ''/users/42'', search = ''id=99'', hash = [], state = None\<rparr>"
  let ?own = "toOwnParams (lib at_root) (Loc ?l) (Some ''/users/:id'') lib_state"
  have loc: "location_of (lib at_root) (Loc ?l) = Inr ?l"
    by (simp add: location_of_def isNil_def toLocation_def)
  have "fst ?own = Inr [(''id'', Str ''42'')]"
    by code_simp
  then have own: "?own = (Inr [(''id'', Str ''42'')], snd ?own)"
    by (simp add: prod_eq_iff)
  from toParams_merge_precedence [OF loc, of "Some ''/users/:id''" lib_state] own
  obtain r where r: "toParams (lib at_root) (Loc ?l) (Some ''/users/:id'') lib_state = (Inr r, snd ?own)"
    and m: "\<forall>k. map_of r k =
              precedence_merge (map_of (state_or_empty ?l)) (map_of (qs_parse (lib at_root) (hash ?l)))
                (map_of (qs_parse (lib at_root) (search ?l))) (map_of [(''id'', Str ''42'')]) k"
    by blast
  from m have "map_of r ''id'' = Some (Str ''42'')"
    by (simp add: precedence_merge_def)
  moreover have "map_of (qs_parse (lib at_root) ''id=99'') ''id'' = Some (Num 99)"
    by code_simp
  ultimately show ?thesis using r by simp
qed

text \<open>
  C7. The slash trimming of the pathname before matching. The regular expression's first
  alternative matches the whole run of two or more leading slashes and the replacement
  is empty, so no leading slash is retained there; and only the first match is replaced,
  so trailing slashes stay after a trimmed lead.
\<close>

theorem trimSlashes_canonical_forms:
  "trimSlashes ''/users/42'' = ''/users/42''
   \<and> trimSlashes ''/users/42/'' = ''/users/42''
   \<and> trimSlashes ''/users/42///'' = ''/users/42''
   \<and> trimSlashes ''//users/42'' = ''users/42''
   \<and> trimSlashes ''//users/42/'' = ''users/42/''"
  by (simp add: trimSlashes_def leadSlashes_def trailSlashes_def)

text \<open>
  C10. With the pattern given, the results of \<open>toParams\<close>, \<open>toOwnParams\<close> and
  \<open>toUrl\<close> (and of the earlier \<open>toParams\<close>) are the same in any two states of the
  module, whatever \<open>setPattern\<close> and earlier lookups have made of the default pattern
  and of the cache.
\<close>

theorem explicit_pattern_noninterference:
  assumes "reachable env st1" and "reachable env st2"
  shows "fst (toParams env a (Some p) st1) = fst (toParams env a (Some p) st2)
       \<and> fst (toOwnParams env a (Some p) st1) = fst (toOwnParams env a (Some p) st2)
       \<and> fst (toUrl env to (Some p) st1) = fst (toUrl env to (Some p) st2)
       \<and> fst (toParams_v0 env a (Some p) st1) = fst (toParams_v0 env a (Some p) st2)"
proof -
  have c: "coherent env st1" "coherent env st2"
    using assms by (simp_all add: reachable_coherent)
  show ?thesis
    using toParams_explicit [OF c] toOwnParams_explicit [OF c] toUrl_explicit [OF c]
      toParams_v0_explicit [OF c]
    by blast
qed

theorem explicit_pattern_noninterference_witness:
  "fst (toParams (lib at_root) (Url ''http://example.com/users/42?id=99'') (Some ''/users/:id'')
          lib_state)
   = fst (toParams (lib at_root) (Url ''http://example.com/users/42?id=99'') (Some ''/users/:id'')
            (setPattern (Some ''/posts/:post'')
               (snd (getParser (lib at_root) (Some ''/users/:id'') lib_state))))
   \<and> fst (toUrl (lib at_root) (DObj [(''id'', Num 7)]) (Some ''/users/:id'') lib_state)
     = fst (toUrl (lib at_root) (DObj [(''id'', Num 7)]) (Some ''/users/:id'')
              (setPattern (Some ''/posts/:post'')
                 (snd (getParser (lib at_root) (Some ''/users/:id'') lib_state))))
   \<and> fst (toUrl (lib at_root) (DObj [(''post'', Num 7)]) None lib_state) = Inr ''/?post=7''
   \<and> fst (toUrl (lib at_root) (DObj [(''post'', Num 7)]) None
             (setPattern (Some ''/posts/:post'')
                (snd (getParser (lib at_root) (Some ''/users/:id'') lib_state))))
     = Inr ''/posts/7''"
proof -
  let ?st2 = "setPattern (Some ''/posts/:post'')
                (snd (getParser (lib at_root) (Some ''/users/:id'') lib_state))"
  have r1: "reachable (lib at_root) lib_state"
    by (rule reachable.init) (rule lib_initial_state)
  have r2: "reachable (lib at_root) ?st2"
    by (intro reachable.set reachable.get r1)
  have omitted1: "fst (toUrl (lib at_root) (DObj [(''post'', Num 7)]) None lib_state) = Inr ''/?post=7''"
    by code_simp
  have omitted2: "fst (toUrl (lib at_root) (DObj [(''post'', Num 7)]) None ?st2) = Inr ''/posts/7''"
    by code_simp
  from explicit_pattern_noninterference [OF r1 r2] omitted1 omitted2 show ?thesis
    by blast
qed



text \<open>
  C6. When the pattern's parser requires a named segment and the parameters have no value
  for it, neither as a property of their own nor from \<open>Object.prototype\<close>, then
  \<open>stringify\<close> and \<open>toUrl\<close> return the parser's error to the caller and no URL:
  \<open>pick\<close> gives the key the value \<open>undefined\<close>, nothing fills it in, and the
  \<open>|| "/"\<close> applies to an empty string only. A segment named like a member of
  \<open>Object.prototype\<close> takes that member for its value when the parameters have none
  of their own, and a URL is returned.
\<close>

theorem toUrl_missing_required_segment:
  assumes "getParser env pat st = (Inr (Compiled parser), st')"
      and "required_segment parser n"
      and "map_of ps n = None"
      and "n \<notin> set Object_prototype"
  shows "stringify env ps pat st = (Inl PatternMismatchError, st')
       \<and> toUrl env (DObj ps) pat st = (Inl PatternMismatchError, st')"
proof -
  from assms(2) have n: "n \<in> set (up_names parser)"
    and fails: "\<And>qs. js_get qs n = Undefined \<Longrightarrow> up_stringify parser qs = Inl PatternMismatchError"
    by (simp_all add: required_segment_def)
  from assms(3,4) have "js_get ps n = Undefined" by (simp add: js_get_def)
  with n have "js_get (spreads [[(''_'', Str [])], pick (up_names parser) ps]) n = Undefined"
    by (simp add: js_get_pathnameParams)
  then have "up_stringify parser (spreads [[(''_'', Str [])], pick (up_names parser) ps])
             = Inl PatternMismatchError"
    by (rule fails)
  with assms(1) have s: "stringify env ps pat st = (Inl PatternMismatchError, st')"
    by (simp add: stringify_def Let_def)
  then show ?thesis
    by (simp add: toUrl_def parameterize_def)
qed

theorem toUrl_missing_required_segment_witness:
  "fst (toUrl (lib at_root) (DObj [(''tab'', Str ''profile'')]) (Some ''/users/:id'') lib_state)
     = Inl PatternMismatchError"
proof -
  let ?p = "\<lparr>up_names = [''id''], up_match = match_ast [Static ''/users/'', Named ''id''],
          up_stringify = stringify_ast [Static ''/users/'', Named ''id'']\<rparr>"
  let ?g = "getParser (lib at_root) (Some ''/users/:id'') lib_state"
  have g: "?g = (Inr (Compiled ?p), snd ?g)"
    by (rule getParser_pair) (rule lib_getParser_users_id)
  have r: "required_segment ?p ''id''"
    by (rule lib_named_required [OF lib_users_id_parser, of "[Static ''/users/'', Named ''id'']"])
       (simp_all add: name_char_def special_char_def)
  have m: "map_of [(''tab'', Str ''profile'')] ''id'' = None" by simp
  have o: "''id'' \<notin> set Object_prototype" by (simp add: Object_prototype_def)
  from toUrl_missing_required_segment [OF g r m o] show ?thesis by simp
qed

theorem toUrl_inherited_segment_value:
  "fst (toUrl (lib at_root) (DObj [(''tab'', Str ''profile'')]) (Some ''/users/:constructor'')
          lib_state)
     = Inr ''/users/function Object() { [native code] }?tab=profile''"
  by code_simp

text \<open>
  C8. For a parameter object, a pattern whose parser is obtained and parameters the parser
  stringifies, \<open>toUrl\<close> returns what the query codec makes of the pathname (the
  parser's string for the parameters picked at its names, or \<open>/\<close> when that string
  is empty) and of the parameters at the other keys. An update function is applied to
  the current parameters and its result is treated the same way. The URL begins with a
  slash when the parser's string is empty or begins with one (and the codec keeps it).
\<close>

theorem toUrl_shape:
  assumes "getParser env pat st = (Inr (Compiled parser), st')"
      and "up_stringify parser (spreads [[(''_'', Str [])], pick (up_names parser) ps]) = Inr path"
  shows "toUrl env (DObj ps) pat st
           = (Inr (qs_stringifyUrl env (if path = [] then ''/'' else path)
                     (omit (up_names parser) ps)), st')
       \<and> (\<forall>k. map_of (spreads [[(''_'', Str [])], pick (up_names parser) ps]) k
               = (if k \<in> set (up_names parser) then Some (js_get ps k)
                  else if k = ''_'' then Some (Str []) else None))
       \<and> map_of (omit (up_names parser) ps) = map_of ps |` (- set (up_names parser))
       \<and> (\<forall>f cur st1. getCurrParams env pat st = (Inr cur, st1) \<longrightarrow>
             toUrl env (DFun f) pat st = stringify env (f cur) pat st1)
       \<and> ((path = [] \<or> hd path = CHR ''/'') \<and> keeps_leading_slash env \<longrightarrow>
             (\<exists>t. fst (toUrl env (DObj ps) pat st) = Inr (CHR ''/'' # t)))"
proof (intro conjI allI impI)
  show u: "toUrl env (DObj ps) pat st
           = (Inr (qs_stringifyUrl env (if path = [] then ''/'' else path)
                     (omit (up_names parser) ps)), st')"
    using assms by (rule toUrl_DObj)
  show "map_of (spreads [[(''_'', Str [])], pick (up_names parser) ps]) k
          = (if k \<in> set (up_names parser) then Some (js_get ps k)
             else if k = ''_'' then Some (Str []) else None)" for k
    by (rule map_of_pathnameParams)
  show "map_of (omit (up_names parser) ps) = map_of ps |` (- set (up_names parser))"
    by (rule map_of_omit)
  show "toUrl env (DFun f) pat st = stringify env (f cur) pat st1"
    if "getCurrParams env pat st = (Inr cur, st1)" for f cur st1
    using that by (simp add: toUrl_def parameterize_def)
  show "\<exists>t. fst (toUrl env (DObj ps) pat st) = Inr (CHR ''/'' # t)"
    if h: "(path = [] \<or> hd path = CHR ''/'') \<and> keeps_leading_slash env"
  proof -
    from h obtain rest where p: "(if path = [] then ''/'' else path) = CHR ''/'' # rest"
      by (cases path) auto
    from h obtain t where
      "qs_stringifyUrl env (CHR ''/'' # rest) (omit (up_names parser) ps) = CHR ''/'' # t"
      unfolding keeps_leading_slash_def by blast
    with u p show ?thesis by simp
  qed
qed

theorem toUrl_shape_witness:
  "fst (toUrl (lib at_root) (DObj [(''id'', Num 123), (''tab'', Str ''profile'')])
         (Some ''/users/:id'') lib_state) = Inr ''/users/123?tab=profile''
   \<and> (\<exists>t. fst (toUrl (lib at_root) (DObj [(''id'', Num 123), (''tab'', Str ''profile'')])
               (Some ''/users/:id'') lib_state) = Inr (CHR ''/'' # t))"
proof -
  let ?p = "\<lparr>up_names = [''id''], up_match = match_ast [Static ''/users/'', Named ''id''],
          up_stringify = stringify_ast [Static ''/users/'', Named ''id'']\<rparr>"
  let ?ps = "[(''id'', Num 123), (''tab'', Str ''profile'')]"
  have g: "getParser (lib at_root) (Some ''/users/:id'') lib_state
           = (Inr (Compiled ?p), snd (getParser (lib at_root) (Some ''/users/:id'') lib_state))"
    by (rule getParser_pair) (rule lib_getParser_users_id)
  have s: "up_stringify ?p (spreads [[(''_'', Str [])], pick (up_names ?p) ?ps]) = Inr ''/users/123''"
    by code_simp
  have q: "qs_stringifyUrl (lib at_root) ''/users/123'' (omit (up_names ?p) ?ps) = ''/users/123?tab=profile''"
    by code_simp
  from toUrl_shape [OF g s] lib_keeps_leading_slash [of at_root] q
  show ?thesis by simp
qed

theorem toUrl_without_leading_slash:
  "fst (toUrl (lib at_root) (DObj [(''id'', Num 123), (''tab'', Str ''profile'')])
         (Some ''users/:id'') lib_state) = Inr ''users/123?tab=profile''"
  by code_simp




text \<open>
  C3. The scope of \<open>/users/:userId\<close> under the pattern \<open>/admin\<close> at the location
  \<open>/admin/users/7?adminId=3\<close>, for a pattern library that captures \<open>userId = "7"\<close>
  and no catch-all from the pathname and a query codec that reads \<open>adminId\<close> as the
  number 3. Its \<open>params\<close> are all that \<open>toParams\<close> extracts under the full pattern
  but the catch-all: \<open>adminId\<close> from the query and \<open>userId\<close> from the pathname.
  Its \<open>rootParams\<close> are the pathname parameters of its root pattern, its own segment
  included; \<open>rest\<close> is the empty string.
\<close>

theorem routable_admin_users:
  assumes "UrlPattern env ''/admin/users/:userId(*)'' = Inr parser"
      and "up_match parser ''/admin/users/7'' = Some [(''userId'', Str ''7'')]"
      and "qs_parse env ''?adminId=3'' = [(''adminId'', Num 3)]"
      and "qs_parse env [] = []"
      and "coherent env st"
  shows "fst (routable env (PatternString ''/users/:userId'') admin_users_7
               \<lparr>parent_rootPattern = ''/admin'', parent_rootParams = inherited\<rparr> st)
         = Inr \<lparr>ownPattern = ''/users/:userId'',
                params = [(''adminId'', Num 3), (''userId'', Str ''7'')],
                pattern = ''/admin/users/:userId(*)'',
                rootParams = [(''userId'', Str ''7'')],
                rootPattern = ''/admin/users/:userId'', rest = Str []\<rparr>"
proof -
  let ?pat = "''/admin/users/:userId(*)''"
  let ?l = "Loc admin_users_7"
  have loc: "location_of env ?l = Inr admin_users_7"
    by (simp add: location_of_def isNil_def toLocation_def)
  have trim: "trimSlashes (pathname admin_users_7) = ''/admin/users/7''"
    by (simp add: admin_users_7_def trimSlashes_def leadSlashes_def trailSlashes_def)
  have own: "fst (toOwnParams env ?l (Some ?pat) s) = Inr [(''userId'', Str ''7'')]"
    if "coherent env s" for s
    using that assms(1,2) loc trim
    by (simp add: fst_toOwnParams getParser_explicit Object_prototype_def)
  have merged: "spreads [state_or_empty admin_users_7, qs_parse env (hash admin_users_7),
                  qs_parse env (search admin_users_7), [(''userId'', Str ''7'')]]
                = [(''adminId'', Num 3), (''userId'', Str ''7'')]"
    using assms(3,4)
    by (simp add: admin_users_7_def state_or_empty_def spreads_def spread_def entries_def)
  have all: "fst (toParams env ?l (Some ?pat) st) = Inr [(''adminId'', Num 3), (''userId'', Str ''7'')]"
    using loc own [OF assms(5)] merged by (simp add: fst_toParams)
  have own': "fst (toOwnParams env ?l (Some ?pat) (snd (toParams env ?l (Some ?pat) st)))
              = Inr [(''userId'', Str ''7'')]"
    by (rule own) (rule coherent_toParams [OF assms(5)])
  show ?thesis
    using all own'
    by (simp add: routable_def toPattern_def fst_router js_get_def Object_prototype_def)
qed

theorem routable_admin_users_witness:
  "fst (routable (lib admin_users_7) (PatternString ''/users/:userId'') admin_users_7
          (as_parent \<lparr>ownPattern = ''/admin'', params = [(''adminId'', Num 3)], pattern = ''/admin(*)'',
               rootParams = [], rootPattern = ''/admin'', rest = Str ''/users/7''\<rparr>) lib_state)
     = Inr \<lparr>ownPattern = ''/users/:userId'',
            params = [(''adminId'', Num 3), (''userId'', Str ''7'')],
            pattern = ''/admin/users/:userId(*)'',
            rootParams = [(''userId'', Str ''7'')],
            rootPattern = ''/admin/users/:userId'', rest = Str []\<rparr>
   \<and> fst (routable (lib admin_users_7) (PatternString ''/admin'') admin_users_7 root_parent lib_state)
     = Inr \<lparr>ownPattern = ''/admin'', params = [(''adminId'', Num 3)], pattern = ''/admin(*)'',
            rootParams = [], rootPattern = ''/admin'', rest = Str ''/users/7''\<rparr>"
proof -
  let ?p = "\<lparr>up_names = [''userId'', ''_''],
          up_match = match_ast [Static ''/admin/users/'', Named ''userId'', Optional [Wildcard]],
          up_stringify = stringify_ast [Static ''/admin/users/'', Named ''userId'', Optional [Wildcard]]\<rparr>"
  have c: "UrlPattern (lib admin_users_7) ''/admin/users/:userId(*)'' = Inr ?p"
    by (simp add: lib_def lib_admin_users_parser)
  have m: "up_match ?p ''/admin/users/7'' = Some [(''userId'', Str ''7'')]"
    by code_simp
  have q: "qs_parse (lib admin_users_7) ''?adminId=3'' = [(''adminId'', Num 3)]"
    by code_simp
  have e: "qs_parse (lib admin_users_7) [] = []"
    by code_simp
  have admin: "fst (routable (lib admin_users_7) (PatternString ''/admin'') admin_users_7 root_parent lib_state)
     = Inr \<lparr>ownPattern = ''/admin'', params = [(''adminId'', Num 3)], pattern = ''/admin(*)'',
            rootParams = [], rootPattern = ''/admin'', rest = Str ''/users/7''\<rparr>"
    by code_simp
  from routable_admin_users [OF c m q e lib_state_coherent, of "Some []"] admin
  show ?thesis by (simp add: as_parent_def)
qed

theorem routable_params_not_pathname_only:
  "fst (routable (lib admin_users_7) (PatternString ''/users/:userId'') admin_users_7
          (as_parent \<lparr>ownPattern = ''/admin'', params = [(''adminId'', Num 3)], pattern = ''/admin(*)'',
               rootParams = [], rootPattern = ''/admin'', rest = Str ''/users/7''\<rparr>) lib_state)
     \<noteq> Inr \<lparr>ownPattern = ''/users/:userId'',
            params = [(''userId'', Str ''7'')],
            pattern = ''/admin/users/:userId(*)'',
            rootParams = [],
            rootPattern = ''/admin/users/:userId'', rest = Str []\<rparr>"
  by code_simp

text \<open>
  C4. The scope's \<open>goTo\<close> on a parameter object navigates with the parent's
  \<open>rootParams\<close> spread under the object (the object's keys override), against the
  scope's pattern unless the options bring a pattern of their own, and with the
  options' \<open>replace\<close>.
\<close>

theorem scope_goTo_merges_rootParams:
  "scope_goTo env par s (DObj d) opts st
     = navigate env (DObj (spreads [parent_params par, d]))
         (Options \<lparr>opt_pattern =
                     Some (case opts of
                             None \<Rightarrow> pattern s
                           | Some given \<Rightarrow>
                               (case opt_pattern given of None \<Rightarrow> pattern s | Some p \<Rightarrow> p)),
                   opt_replace = (case opts of None \<Rightarrow> None | Some given \<Rightarrow> opt_replace given)\<rparr>)
         False st
   \<and> (\<forall>k. map_of (spreads [parent_params par, d]) k
           = (case map_of d k of Some v \<Rightarrow> Some v | None \<Rightarrow> map_of (parent_params par) k))
   \<and> ((case opts of None \<Rightarrow> True | Some given \<Rightarrow> opt_pattern given = None) \<longrightarrow>
        scope_goTo env par s (DObj d) opts st
          = (case toUrl env (DObj (spreads [parent_params par, d])) (Some (pattern s)) st of
               (Inl e, st') \<Rightarrow> (Inl e, st')
             | (Inr url, st') \<Rightarrow>
                 (Inr (if (case opts of None \<Rightarrow> False | Some given \<Rightarrow> truthy (opt_replace given))
                       then Replace url else Push url), st')))"
proof (intro conjI allI impI)
  show "scope_goTo env par s (DObj d) opts st
     = navigate env (DObj (spreads [parent_params par, d]))
         (Options \<lparr>opt_pattern =
                     Some (case opts of
                             None \<Rightarrow> pattern s
                           | Some given \<Rightarrow>
                               (case opt_pattern given of None \<Rightarrow> pattern s | Some p \<Rightarrow> p)),
                   opt_replace = (case opts of None \<Rightarrow> None | Some given \<Rightarrow> opt_replace given)\<rparr>)
         False st"
    by (simp add: scope_goTo_def Let_def split: option.splits)
  show "map_of (spreads [parent_params par, d]) k
           = (case map_of d k of Some v \<Rightarrow> Some v | None \<Rightarrow> map_of (parent_params par) k)" for k
    by (simp add: map_of_spreads2 map_add_def)
  show "scope_goTo env par s (DObj d) opts st
          = (case toUrl env (DObj (spreads [parent_params par, d])) (Some (pattern s)) st of
               (Inl e, st') \<Rightarrow> (Inl e, st')
             | (Inr url, st') \<Rightarrow>
                 (Inr (if (case opts of None \<Rightarrow> False | Some given \<Rightarrow> truthy (opt_replace given))
                       then Replace url else Push url), st'))"
    if "case opts of None \<Rightarrow> True | Some given \<Rightarrow> opt_pattern given = None"
    using that
    by (cases opts)
       (auto simp: scope_goTo_def navigate_def Let_def truthy_def split: prod.splits sum.splits)
qed

theorem scope_goTo_merges_rootParams_witness:
  "fst (scope_goTo (lib admin_3_users_7)
          \<lparr>parent_rootPattern = ''/admin/:adminId'', parent_rootParams = Some [(''adminId'', Str ''3'')]\<rparr>
          \<lparr>ownPattern = ''/users/:userId'', params = [(''adminId'', Str ''3''), (''userId'', Str ''7'')],
           pattern = ''/admin/:adminId/users/:userId(*)'',
           rootParams = [(''adminId'', Str ''3''), (''userId'', Str ''7'')],
           rootPattern = ''/admin/:adminId/users/:userId'', rest = Str []\<rparr>
          (DObj [(''userId'', Num 9)]) None lib_state)
     = Inr (Push ''/admin/3/users/9'')
   \<and> spreads [[(''adminId'', Str ''3'')], [(''userId'', Num 9)]]
     = [(''adminId'', Str ''3''), (''userId'', Num 9)]"
proof -
  let ?par = "\<lparr>parent_rootPattern = ''/admin/:adminId'', parent_rootParams = Some [(''adminId'', Str ''3'')]\<rparr>"
  let ?s = "\<lparr>ownPattern = ''/users/:userId'', params = [(''adminId'', Str ''3''), (''userId'', Str ''7'')],
           pattern = ''/admin/:adminId/users/:userId(*)'',
           rootParams = [(''adminId'', Str ''3''), (''userId'', Str ''7'')],
           rootPattern = ''/admin/:adminId/users/:userId'', rest = Str []\<rparr>"
  have m: "spreads [parent_params ?par, [(''userId'', Num 9)]] = [(''adminId'', Str ''3''), (''userId'', Num 9)]"
    by code_simp
  have u: "fst (toUrl (lib admin_3_users_7) (DObj [(''adminId'', Str ''3''), (''userId'', Num 9)])
                 (Some (pattern ?s)) lib_state) = Inr ''/admin/3/users/9''"
    by code_simp
  have h: "case (None :: options option) of None \<Rightarrow> True | Some given \<Rightarrow> opt_pattern given = None"
    by simp
  note eq = scope_goTo_merges_rootParams
         [of "lib admin_3_users_7" ?par ?s "[(''userId'', Num 9)]" None lib_state,
          THEN conjunct2, THEN conjunct2, THEN mp, OF h, unfolded m]
  from u obtain st' where
    "toUrl (lib admin_3_users_7) (DObj [(''adminId'', Str ''3''), (''userId'', Num 9)])
       (Some (pattern ?s)) lib_state = (Inr ''/admin/3/users/9'', st')"
    by (cases "toUrl (lib admin_3_users_7) (DObj [(''adminId'', Str ''3''), (''userId'', Num 9)])
                 (Some (pattern ?s)) lib_state") simp
  with eq have "fst (scope_goTo (lib admin_3_users_7) ?par ?s (DObj [(''userId'', Num 9)]) None lib_state)
                 = Inr (Push ''/admin/3/users/9'')"
    by simp
  moreover have "spreads [[(''adminId'', Str ''3'')], [(''userId'', Num 9)]]
     = [(''adminId'', Str ''3''), (''userId'', Num 9)]"
    by code_simp
  ultimately show ?thesis by simp
qed

theorem scope_goTo_options_pattern:
  "fst (scope_goTo (lib admin_3_users_7)
          \<lparr>parent_rootPattern = ''/admin/:adminId'', parent_rootParams = Some [(''adminId'', Str ''3'')]\<rparr>
          \<lparr>ownPattern = ''/users/:userId'', params = [(''adminId'', Str ''3''), (''userId'', Str ''7'')],
           pattern = ''/admin/:adminId/users/:userId(*)'',
           rootParams = [(''adminId'', Str ''3''), (''userId'', Str ''7'')],
           rootPattern = ''/admin/:adminId/users/:userId'', rest = Str []\<rparr>
          (DObj [(''userId'', Num 9)])
          (Some \<lparr>opt_pattern = Some ''/members/:userId'', opt_replace = None\<rparr>) lib_state)
     = Inr (Push ''/members/9?adminId=3'')"
  by code_simp

text \<open>
  C9. The click handler on an element. It calls \<open>preventDefault\<close> exactly when the
  default was not prevented, the button is the main one, the target is the element's own
  and no modifier key is held, whether or not the element has an \<open>href\<close>; it
  navigates (to the \<open>href\<close>, replacing when the \<open>replace\<close> attribute is present
  and not \<open>"false"\<close>) when in addition the \<open>href\<close> attribute is a string. A click
  on an element without \<open>href\<close> thus has its default prevented and navigates nowhere.
\<close>

theorem goTo_click_handling:
  "goTo env (Some \<lparr>button = 0, defaultPrevented = False,
                    currentTarget = Some \<lparr>href_attribute = None, target = None, replace_attribute = None\<rparr>,
                    metaKey = False, altKey = False, ctrlKey = False, shiftKey = False\<rparr>) st
     = (\<lparr>prevented = True, navigated = None\<rparr>, st)
   \<and> prevented (fst (goTo env (Some (ev\<lparr>currentTarget := Some el\<rparr>)) st))
     = (\<not> defaultPrevented ev \<and> button ev = 0
        \<and> (target el = None \<or> target el = Some [] \<or> target el = Some ''_self'')
        \<and> \<not> (metaKey ev \<or> altKey ev \<or> ctrlKey ev \<or> shiftKey ev))
   \<and> navigated (fst (goTo env (Some (ev\<lparr>currentTarget := Some el\<rparr>)) st))
     = (if \<not> defaultPrevented ev \<and> button ev = 0
           \<and> (target el = None \<or> target el = Some [] \<or> target el = Some ''_self'')
           \<and> \<not> (metaKey ev \<or> altKey ev \<or> ctrlKey ev \<or> shiftKey ev)
        then (case href_attribute el of
                None \<Rightarrow> None
              | Some h \<Rightarrow>
                  Some (Inr (if replace_attribute el \<noteq> None \<and> replace_attribute el \<noteq> Some ''false''
                             then Replace h else Push h)))
        else None)
   \<and> goTo env None st = (\<lparr>prevented = False, navigated = None\<rparr>, st)
   \<and> goTo env (Some (ev\<lparr>currentTarget := None\<rparr>)) st = (\<lparr>prevented = False, navigated = None\<rparr>, st)"
  by (auto simp: goTo_def navigate_def toUrl_def truthy_def Let_def split: option.splits)

end
